theory Spec2Isabelle
  imports Main "HOL-Library.AList"
begin

section \<open>Run-time values\<close>

text \<open>
  The TypeScript interfaces of \<^verbatim>\<open>main.ts\<close> are erased at run time, and the rows come
  from Papa.parse with \<^verbatim>\<open>dynamicTyping\<close>, so a field holds whatever primitive the
  cell coerced to. \<open>jsval\<close> is that universe of primitives. \<open>JNum n\<close> is the number
  whose value is the integer \<open>n\<close> (register numbers, semesters and marks are integers; the
  two zeros are one value here, as they are for \<^verbatim>\<open>===\<close>, for truthiness and for
  property keys); \<open>JNaN\<close> is kept apart because \<^verbatim>\<open>===\<close> treats it differently.
  Non-integral and infinite numbers and objects (a Date) are not part of the model.
  A string is a list of characters standing for its code units.
\<close>

datatype jsval = JUndefined | JNull | JBool bool | JNum int | JNaN | JStr string

text \<open>\<^verbatim>\<open>a === b\<close>: same type and same value, and NaN equal to nothing.\<close>

definition strictEq :: "jsval \<Rightarrow> jsval \<Rightarrow> bool" where
  "strictEq a b = (a \<noteq> JNaN \<and> a = b)"

text \<open>The truthiness test of \<^verbatim>\<open>cond ? x : y\<close> (ToBoolean).\<close>

fun toBoolean :: "jsval \<Rightarrow> bool" where
  "toBoolean JUndefined = False"
| "toBoolean JNull = False"
| "toBoolean (JBool b) = b"
| "toBoolean (JNum n) = (n \<noteq> 0)"
| "toBoolean JNaN = False"
| "toBoolean (JStr s) = (s \<noteq> [])"

text \<open>Decimal digits of a natural number, as Number::toString prints an integer.\<close>

definition digitChar :: "nat \<Rightarrow> char" where
  "digitChar d = ''0123456789'' ! d"

fun showNat :: "nat \<Rightarrow> string" where
  "showNat n =
     (if n < 10 then [digitChar n]
      else showNat (n div 10) @ [digitChar (n mod 10)])"

declare showNat.simps [simp del]

definition showInt :: "int \<Rightarrow> string" where
  "showInt i = (if i < 0 then CHR ''-'' # showNat (nat (- i)) else showNat (nat i))"

text \<open>
  The key under which \<^verbatim>\<open>obj[v]\<close> and \<^verbatim>\<open>{ [v]: ... }\<close> file a value
  (ToPropertyKey of a primitive is its ToString).
\<close>

fun toPropertyKey :: "jsval \<Rightarrow> string" where
  "toPropertyKey (JStr s) = s"
| "toPropertyKey JUndefined = ''undefined''"
| "toPropertyKey JNull = ''null''"
| "toPropertyKey (JBool b) = (if b then ''true'' else ''false'')"
| "toPropertyKey (JNum n) = showInt n"
| "toPropertyKey JNaN = ''NaN''"

section \<open>Plain objects used as dictionaries\<close>

text \<open>
  \<^verbatim>\<open>grades: { [key: string]: ... }\<close> is an ordinary object. \<open>props\<close> lists its own
  properties in the order they were created; \<open>protoNull\<close> tells whether its prototype has
  been set to null (it starts as Object.prototype).
\<close>

record jsobj =
  props :: "(string \<times> jsval) list"
  protoNull :: bool

text \<open>The object literal \<^verbatim>\<open>{ [k]: v }\<close>: a computed key always defines an own property.\<close>

definition objNew :: "string \<Rightarrow> jsval \<Rightarrow> jsobj" where
  "objNew k v = \<lparr>props = [(k, v)], protoNull = False\<rparr>"

text \<open>
  The assignment \<^verbatim>\<open>obj[k] = v\<close>. An own property is overwritten where it stands. A
  new key is appended, except that \<^verbatim>\<open>__proto__\<close>, while it is not an own property
  and the prototype is still Object.prototype, reaches the inherited setter: that one
  sets the prototype to null when \<open>v\<close> is null, ignores every other primitive, and
  creates no property.
\<close>

definition objSet :: "jsobj \<Rightarrow> string \<Rightarrow> jsval \<Rightarrow> jsobj" where
  "objSet obj k v =
     (if k \<in> set (map fst (props obj)) then obj\<lparr>props := AList.update k v (props obj)\<rparr>
      else if k = ''__proto__'' \<and> \<not> protoNull obj
        then (if v = JNull then obj\<lparr>protoNull := True\<rparr> else obj)
      else obj\<lparr>props := props obj @ [(k, v)]\<rparr>)"

text \<open>The own property \<open>k\<close> of an object, if it has one.\<close>

definition getOwn :: "jsobj \<Rightarrow> string \<Rightarrow> jsval option" where
  "getOwn obj k = map_of (props obj) k"

text \<open>
  A key is an array index when it is the decimal form of a number below \<open>2^32 - 1\<close>
  (ToString (ToUint32 k) = k). Own keys are enumerated with the array indices first, in
  ascending numeric order, and then the other strings in creation order.
\<close>

definition digitsValue :: "string \<Rightarrow> nat" where
  "digitsValue s = foldl (\<lambda>acc c. 10 * acc + (of_char c - 48)) 0 s"

definition isArrayIndex :: "string \<Rightarrow> bool" where
  "isArrayIndex s = (digitsValue s < 4294967295 \<and> showNat (digitsValue s) = s)"

definition ownKeys :: "string list \<Rightarrow> string list" where
  "ownKeys ks =
     sort_key digitsValue (filter isArrayIndex ks) @ filter (\<lambda>k. \<not> isArrayIndex k) ks"

text \<open>\<^verbatim>\<open>Object.keys(obj)\<close>; every property made by \<open>objNew\<close> and \<open>objSet\<close> is enumerable.\<close>

definition objectKeys :: "jsobj \<Rightarrow> string list" where
  "objectKeys obj = ownKeys (map fst (props obj))"

section \<open>The records\<close>

text \<open>\<^verbatim>\<open>interface ResultType\<close>: one parsed row.\<close>

record ResultType =
  registerNo :: jsval
  studentName :: jsval
  branch :: jsval
  semester :: jsval
  course :: jsval
  examType :: jsval
  attendance :: jsval
  withheld :: jsval
  iMark :: jsval
  grade :: jsval
  result :: jsval

text \<open>\<^verbatim>\<open>interface FormattedType\<close>: one student, the courses as properties of \<open>grades\<close>.\<close>

record FormattedType =
  registerNo :: jsval
  studentName :: jsval
  branch :: jsval
  semester :: jsval
  examType :: jsval
  grades :: jsobj
  withheld :: jsval

text \<open>\<^verbatim>\<open>enum Grade\<close>, and the values the declared type \<^verbatim>\<open>Grade | null\<close> admits.\<close>

definition isGrade :: "jsval \<Rightarrow> bool" where
  "isGrade v = (v \<in> set (map JStr [''F'', ''E'', ''D'', ''C'', ''B'', ''A'', ''S'']))"

definition isGradeOrNull :: "jsval \<Rightarrow> bool" where
  "isGradeOrNull v = (v = JNull \<or> isGrade v)"

section \<open>formatData\<close>

datatype error = TypeError

text \<open>\<^verbatim>\<open>Array.prototype.findIndex\<close>: the first index whose element passes, or -1.\<close>

fun findIndex :: "('a \<Rightarrow> bool) \<Rightarrow> 'a list \<Rightarrow> int" where
  "findIndex p [] = - 1"
| "findIndex p (x # xs) =
     (if p x then 0 else (let i = findIndex p xs in if i = - 1 then - 1 else i + 1))"

text \<open>The value the literal of lines 99-109 puts under the first course of a new student.\<close>

definition firstGrade :: "ResultType \<Rightarrow> jsval" where
  "firstGrade item =
     (if toBoolean (grade item) then grade item
      else if strictEq (attendance item) (JStr ''Absent'') then JStr ''Absent''
      else if strictEq (ResultType.withheld item) (JStr ''With held for Malpractice'')
        then JStr ''F''
      else if strictEq (ResultType.withheld item) (JStr ''Withheld'') then JStr ''Withheld''
      else JNull)"

text \<open>The record pushed for a register number met for the first time (lines 93-111).\<close>

definition newStudent :: "ResultType \<Rightarrow> FormattedType" where
  "newStudent item =
     \<lparr>FormattedType.registerNo = ResultType.registerNo item,
      studentName = ResultType.studentName item,
      branch = ResultType.branch item,
      semester = ResultType.semester item,
      examType = ResultType.examType item,
      grades = objNew (toPropertyKey (course item)) (firstGrade item),
      withheld = ResultType.withheld item\<rparr>"

text \<open>\<^verbatim>\<open>student.grades[item.course] = item.grade\<close> (line 113).\<close>

definition setGrade :: "FormattedType \<Rightarrow> ResultType \<Rightarrow> FormattedType" where
  "setGrade student item =
     student\<lparr>grades := objSet (grades student) (toPropertyKey (course item)) (grade item)\<rparr>"

text \<open>
  The body of the \<^verbatim>\<open>forEach\<close> callback. \<^verbatim>\<open>formattedData[index]\<close> outside the array
  would be undefined, and reading \<^verbatim>\<open>.grades\<close> of it a TypeError.
\<close>

definition formatItem :: "FormattedType list \<Rightarrow> ResultType \<Rightarrow> error + FormattedType list" where
  "formatItem formattedData item =
     (let index = findIndex
            (\<lambda>i. strictEq (FormattedType.registerNo i) (ResultType.registerNo item))
            formattedData
      in if index = - 1 then Inr (formattedData @ [newStudent item])
         else if 0 \<le> index \<and> nat index < length formattedData
           then Inr (formattedData[nat index := setGrade (formattedData ! nat index) item])
         else Inl TypeError)"

text \<open>\<^verbatim>\<open>data.forEach\<close> over a state; an exception ends the loop.\<close>

fun forEach :: "('s \<Rightarrow> 'a \<Rightarrow> error + 's) \<Rightarrow> 'a list \<Rightarrow> 's \<Rightarrow> error + 's" where
  "forEach f [] s = Inr s"
| "forEach f (x # xs) s = (case f s x of Inl e \<Rightarrow> Inl e | Inr s' \<Rightarrow> forEach f xs s')"

definition formatData :: "ResultType list \<Rightarrow> error + FormattedType list" where
  "formatData data = forEach formatItem data []"

section \<open>getAllCourses\<close>

text \<open>\<^verbatim>\<open>if (!courses.includes(course)) courses.push(course)\<close>.\<close>

definition pushCourse :: "string list \<Rightarrow> string \<Rightarrow> string list" where
  "pushCourse courses c = (if c \<in> set courses then courses else courses @ [c])"

definition getAllCourses :: "FormattedType list \<Rightarrow> string list" where
  "getAllCourses data =
     foldl (\<lambda>courses item. foldl pushCourse courses (objectKeys (grades item))) [] data"

section \<open>parseCsv\<close>

definition LF :: char where "LF = CHR 0x0A"
definition CR :: char where "CR = CHR 0x0D"

text \<open>\<^verbatim>\<open>file.split(/\r\n|\n/)\<close>: one more piece than there are line breaks.\<close>

fun consHead :: "char \<Rightarrow> string list \<Rightarrow> string list" where
  "consHead c [] = [[c]]"
| "consHead c (l # ls) = (c # l) # ls"

fun splitLines :: "string \<Rightarrow> string list" where
  "splitLines [] = [[]]"
| "splitLines [c] = (if c = LF then [[], []] else [[c]])"
| "splitLines (c # d # cs) =
     (if c = CR \<and> d = LF then [] # splitLines cs
      else if c = LF then [] # splitLines (d # cs)
      else consHead c (splitLines (d # cs)))"

text \<open>\<^verbatim>\<open>line.replaceAll(";", ",")\<close> and \<^verbatim>\<open>allLines.join("\n")\<close>.\<close>

definition replaceAllSemicolons :: "string \<Rightarrow> string" where
  "replaceAllSemicolons s = map (\<lambda>c. if c = CHR '';'' then CHR '','' else c) s"

fun joinLF :: "string list \<Rightarrow> string" where
  "joinLF [] = []"
| "joinLF [l] = l"
| "joinLF (l # m # ls) = l @ LF # joinLF (m # ls)"

text \<open>
  What the FileReader delivers: a load event without target, a result that is not a
  string, the text of the file, or a read error. What parseCsv does in return: nothing,
  \<^verbatim>\<open>onError(message)\<close>, or \<^verbatim>\<open>onSuccess(records)\<close>.
\<close>

datatype ReadEvent = LoadNoTarget | LoadNotString | LoadText string | ReadFailed

datatype Callback = NoCallback | OnError string | OnSuccess "ResultType list"

text \<open>
  Papa.parse is a library outside the repository: \<open>papa\<close> stands for the call of lines
  62-78 (header mode, skipEmptyLines, dynamicTyping, transformHeader), mapping the text
  to \<^verbatim>\<open>results.data\<close>, which \<^verbatim>\<open>complete\<close> hands to onSuccess.
\<close>

definition parseCsv :: "(string \<Rightarrow> ResultType list) \<Rightarrow> ReadEvent \<Rightarrow> Callback" where
  "parseCsv papa ev =
     (case ev of
        ReadFailed \<Rightarrow> OnError ''Error reading file''
      | LoadNoTarget \<Rightarrow> NoCallback
      | LoadNotString \<Rightarrow> NoCallback
      | LoadText file \<Rightarrow>
          (let allLines = splitLines file in
           if length allLines < 2 then OnError ''File is empty''
           else OnSuccess (papa (joinLF (allLines[0 := replaceAllSemicolons (allLines ! 0)])))))"

section \<open>Notions the claims are stated with\<close>

text \<open>
  The distinct elements of a list in the order of their first occurrence, and the rows
  of the input that carry a given register number.
\<close>

fun firstSeen :: "'a list \<Rightarrow> 'a list" where
  "firstSeen [] = []"
| "firstSeen (x # xs) = x # firstSeen (removeAll x xs)"

definition rowsOf :: "jsval \<Rightarrow> ResultType list \<Rightarrow> ResultType list" where
  "rowsOf v data = filter (\<lambda>r. ResultType.registerNo r = v) data"

text \<open>A row with the fields the functions read; the other fields are fixed.\<close>

definition mkRow :: "jsval \<Rightarrow> string \<Rightarrow> jsval \<Rightarrow> string \<Rightarrow> jsval \<Rightarrow> jsval \<Rightarrow> ResultType" where
  "mkRow reg name crs att wh grd =
     \<lparr>ResultType.registerNo = reg, studentName = JStr name, branch = JStr ''CT'',
      semester = JNum 3, course = crs, examType = JStr ''Regular'', attendance = JStr att,
      withheld = wh, iMark = JNull, grade = grd, result = JNull\<rparr>"

definition sampleRows :: "ResultType list" where
  "sampleRows =
     [mkRow (JNum 7) ''Asha'' (JStr ''2001-English'') ''Present'' JNull (JStr ''A''),
      mkRow (JNum 3) ''Binu'' (JStr ''2001-English'') ''Absent'' JNull JNull,
      mkRow (JNum 7) ''Asha'' (JStr ''2002-Maths'') ''Present'' JNull (JStr ''F'')]"

text \<open>The property key a row's course is filed under, and a student as formatData lays it out.\<close>

definition courseKey :: "ResultType \<Rightarrow> string" where
  "courseKey r = toPropertyKey (course r)"

definition mkStudent :: "jsval \<Rightarrow> string \<Rightarrow> (string \<times> jsval) list \<Rightarrow> bool \<Rightarrow> jsval \<Rightarrow> FormattedType" where
  "mkStudent reg name ps pn wh =
     \<lparr>FormattedType.registerNo = reg, studentName = JStr name, branch = JStr ''CT'',
      semester = JNum 3, examType = JStr ''Regular'',
      grades = \<lparr>props = ps, protoNull = pn\<rparr>, withheld = wh\<rparr>"

text \<open>
  Rows of one student whose course keys are, in this order, an ordinary code, an array
  index and \<^verbatim>\<open>__proto__\<close>.
\<close>

definition oddKeyRows :: "ResultType list" where
  "oddKeyRows =
     [mkRow (JNum 1) ''Asha'' (JStr ''2001-English'') ''Present'' JNull (JStr ''A''),
      mkRow (JNum 1) ''Asha'' (JStr ''1002'') ''Present'' JNull (JStr ''B''),
      mkRow (JNum 1) ''Asha'' (JStr ''__proto__'') ''Present'' JNull (JStr ''C'')]"

text \<open>
  The lines of a file that are not empty, and a stand-in for Papa.parse on a text
  without data rows.
\<close>

definition nonEmptyLines :: "string list \<Rightarrow> string list" where
  "nonEmptyLines ls = filter (\<lambda>l. l \<noteq> []) ls"

definition papaNoRows :: "string \<Rightarrow> ResultType list" where
  "papaNoRows text = []"

text \<open>
  The fields a student copies from a row, on either side; the position in formattedData
  of the record a row creates or updates, and that position for row \<open>k\<close> of an input.
\<close>

definition studentMeta :: "FormattedType \<Rightarrow> jsval list" where
  "studentMeta s =
     [FormattedType.registerNo s, FormattedType.studentName s, FormattedType.branch s,
      FormattedType.semester s, FormattedType.examType s, FormattedType.withheld s]"

definition rowMeta :: "ResultType \<Rightarrow> jsval list" where
  "rowMeta r =
     [ResultType.registerNo r, ResultType.studentName r, ResultType.branch r,
      ResultType.semester r, ResultType.examType r, ResultType.withheld r]"



section \<open>Basic facts\<close>

lemma findIndex_range:
  "findIndex p xs = - 1 \<or> (0 \<le> findIndex p xs \<and> findIndex p xs < int (length xs))"
  by (induction xs) (auto simp: Let_def)

lemma formatItem_Inr: "\<exists>out. formatItem fd item = Inr out"
proof -
  let ?i = "findIndex (\<lambda>i. strictEq (FormattedType.registerNo i) (ResultType.registerNo item)) fd"
  from findIndex_range [of _ fd] have "?i = - 1 \<or> (0 \<le> ?i \<and> nat ?i < length fd)"
    by (metis nat_less_iff)
  then show ?thesis
    by (auto simp: formatItem_def Let_def)
qed

lemma forEach_formatItem_Inr: "\<exists>out. forEach formatItem data fd = Inr out"
proof (induction data arbitrary: fd)
  case Nil
  show ?case by simp
next
  case (Cons item data)
  obtain fd' where "formatItem fd item = Inr fd'"
    using formatItem_Inr by blast
  with Cons.IH [of fd'] show ?case by simp
qed

lemma formatData_returns: "\<exists>out. formatData data = Inr out"
  unfolding formatData_def by (rule forEach_formatItem_Inr)

subsection \<open>First-seen order and findIndex\<close>

lemma set_firstSeen [simp]: "set (firstSeen xs) = set xs"
  by (induction xs rule: firstSeen.induct) auto

lemma distinct_firstSeen [simp]: "distinct (firstSeen xs)"
  by (induction xs rule: firstSeen.induct) auto

lemma firstSeen_snoc:
  "firstSeen (xs @ [x]) = (if x \<in> set xs then firstSeen xs else firstSeen xs @ [x])"
  by (induction xs rule: firstSeen.induct) auto

lemma findIndex_none: "(findIndex p xs = - 1) = (\<forall>x\<in>set xs. \<not> p x)"
proof (induction xs)
  case Nil
  show ?case by simp
next
  case (Cons x xs)
  have "findIndex p xs = - 1 \<or> 0 \<le> findIndex p xs"
    using findIndex_range [of p xs] by auto
  with Cons show ?case by (auto simp: Let_def)
qed

lemma findIndex_first:
  "i < length xs \<Longrightarrow> p (xs ! i) \<Longrightarrow> \<forall>j<i. \<not> p (xs ! j) \<Longrightarrow> findIndex p xs = int i"
proof (induction xs arbitrary: i)
  case Nil
  then show ?case by simp
next
  case (Cons x xs)
  show ?case
  proof (cases i)
    case 0
    with Cons.prems show ?thesis by simp
  next
    case (Suc k)
    with Cons.prems have "\<not> p x" by auto
    moreover have "findIndex p xs = int k"
      using Cons.prems Suc by (intro Cons.IH) auto
    ultimately show ?thesis using Suc by (simp add: Let_def)
  qed
qed

lemma findIndex_found:
  "findIndex p xs \<noteq> - 1 \<Longrightarrow>
   \<exists>i<length xs. findIndex p xs = int i \<and> p (xs ! i) \<and> (\<forall>j<i. \<not> p (xs ! j))"
proof (induction xs)
  case Nil
  then show ?case by simp
next
  case (Cons x xs)
  show ?case
  proof (cases "p x")
    case True
    then show ?thesis by (intro exI [of _ 0]) simp
  next
    case False
    with Cons.prems have ne: "findIndex p xs \<noteq> - 1"
      by (auto simp: Let_def split: if_splits)
    from Cons.IH [OF ne] obtain i where i: "i < length xs" "findIndex p xs = int i"
      "p (xs ! i)" "\<forall>j<i. \<not> p (xs ! j)" by blast
    show ?thesis
    proof (intro exI [of _ "Suc i"] conjI allI impI)
      fix j assume "j < Suc i"
      then show "\<not> p ((x # xs) ! j)" using False i(4) by (cases j) auto
    qed (use False i in \<open>auto simp: Let_def\<close>)
  qed
qed

subsection \<open>One step of the loop\<close>

lemma forEach_snoc:
  "forEach f (xs @ [x]) s = (case forEach f xs s of Inl e \<Rightarrow> Inl e | Inr s' \<Rightarrow> f s' x)"
  by (induction xs arbitrary: s) (auto split: sum.splits)

lemma formatData_snoc:
  "formatData data = Inr fd \<Longrightarrow> formatData (data @ [item]) = formatItem fd item"
  by (simp add: formatData_def forEach_snoc)

lemma formatItem_new:
  "\<forall>s\<in>set fd. \<not> strictEq (FormattedType.registerNo s) (ResultType.registerNo item) \<Longrightarrow>
   formatItem fd item = Inr (fd @ [newStudent item])"
  by (simp add: formatItem_def findIndex_none)

lemma formatItem_old:
  "i < length fd \<Longrightarrow> strictEq (FormattedType.registerNo (fd ! i)) (ResultType.registerNo item) \<Longrightarrow>
   \<forall>j<i. \<not> strictEq (FormattedType.registerNo (fd ! j)) (ResultType.registerNo item) \<Longrightarrow>
   formatItem fd item = Inr (fd[i := setGrade (fd ! i) item])"
  using findIndex_first [of i fd "\<lambda>s. strictEq (FormattedType.registerNo s) (ResultType.registerNo item)"]
  by (simp add: formatItem_def)

lemma registerNo_setGrade [simp]:
  "FormattedType.registerNo (setGrade s item) = FormattedType.registerNo s"
  by (simp add: setGrade_def)

lemma registerNo_newStudent [simp]:
  "FormattedType.registerNo (newStudent item) = ResultType.registerNo item"
  by (simp add: newStudent_def)

lemma rowsOf_snoc:
  "rowsOf v (data @ [item]) =
     (if ResultType.registerNo item = v then rowsOf v data @ [item] else rowsOf v data)"
  by (simp add: rowsOf_def)

lemma rowsOf_empty: "v \<notin> set (map ResultType.registerNo data) \<Longrightarrow> rowsOf v data = []"
  by (auto simp: rowsOf_def filter_empty_conv)

lemma formatData_groups:
  "JNaN \<notin> set (map ResultType.registerNo data) \<Longrightarrow> formatData data = Inr out \<Longrightarrow>
   map FormattedType.registerNo out = firstSeen (map ResultType.registerNo data) \<and>
   (\<forall>i<length out. \<exists>r rs. rowsOf (FormattedType.registerNo (out ! i)) data = r # rs \<and>
        out ! i = foldl setGrade (newStudent r) rs)"
proof (induction data arbitrary: out rule: rev_induct)
  case Nil
  then show ?case by (simp add: formatData_def)
next
  case (snoc item data)
  let ?v = "ResultType.registerNo item"
  from snoc.prems have nan: "JNaN \<notin> set (map ResultType.registerNo data)" and v: "?v \<noteq> JNaN"
    by auto
  obtain fd where fd: "formatData data = Inr fd"
    using formatData_returns by blast
  with snoc.prems have out: "formatItem fd item = Inr out"
    by (simp add: formatData_snoc)
  from snoc.IH [OF nan fd]
  have regs: "map FormattedType.registerNo fd = firstSeen (map ResultType.registerNo data)"
    and grp: "\<And>i. i < length fd \<Longrightarrow> \<exists>r rs.
        rowsOf (FormattedType.registerNo (fd ! i)) data = r # rs \<and>
        fd ! i = foldl setGrade (newStudent r) rs"
    by blast+
  have dist: "distinct (map FormattedType.registerNo fd)"
    by (simp add: regs)
  have setregs: "set (map FormattedType.registerNo fd) = set (map ResultType.registerNo data)"
    by (simp add: regs)
  show ?case
  proof (cases "?v \<in> set (map ResultType.registerNo data)")
    case True
    with setregs have "?v \<in> set (map FormattedType.registerNo fd)" by simp
    then obtain i0 where i0: "i0 < length fd" "FormattedType.registerNo (fd ! i0) = ?v"
      by (metis in_set_conv_nth length_map nth_map)
    have other: "FormattedType.registerNo (fd ! j) \<noteq> ?v" if "j < length fd" "j \<noteq> i0" for j
      using dist that i0 by (metis distinct_conv_nth length_map nth_map)
    have "formatItem fd item = Inr (fd[i0 := setGrade (fd ! i0) item])"
      using i0 v other by (intro formatItem_old) (auto simp: strictEq_def)
    with out have out_eq: "out = fd[i0 := setGrade (fd ! i0) item]" by simp
    have "map FormattedType.registerNo out = map FormattedType.registerNo fd"
      unfolding out_eq using i0 by (simp add: map_update list_update_same_conv)
    with regs True have A: "map FormattedType.registerNo out =
        firstSeen (map ResultType.registerNo (data @ [item]))"
      by (simp add: firstSeen_snoc)
    have B: "\<exists>r rs. rowsOf (FormattedType.registerNo (out ! i)) (data @ [item]) = r # rs \<and>
        out ! i = foldl setGrade (newStudent r) rs" if i: "i < length out" for i
    proof (cases "i = i0")
      case True
      from grp [OF i0(1)] i0(2) obtain r rs where
        r: "rowsOf ?v data = r # rs" "fd ! i0 = foldl setGrade (newStudent r) rs" by auto
      have "rowsOf (FormattedType.registerNo (out ! i)) (data @ [item]) = r # (rs @ [item])"
        using True i0 r by (simp add: out_eq rowsOf_snoc)
      moreover have "out ! i = foldl setGrade (newStudent r) (rs @ [item])"
        using True i0 r by (simp add: out_eq)
      ultimately show ?thesis by blast
    next
      case False
      with i have il: "i < length fd" and oi: "out ! i = fd ! i" by (simp_all add: out_eq)
      from other [OF il False] grp [OF il] show ?thesis
        by (auto simp: oi rowsOf_snoc)
    qed
    from A B show ?thesis by blast
  next
    case False
    with setregs have "?v \<notin> set (map FormattedType.registerNo fd)" by simp
    then have "\<forall>s\<in>set fd. \<not> strictEq (FormattedType.registerNo s) ?v"
      unfolding strictEq_def by (metis imageI image_set)
    from formatItem_new [OF this] out have out_eq: "out = fd @ [newStudent item]" by simp
    from regs False have A: "map FormattedType.registerNo out =
        firstSeen (map ResultType.registerNo (data @ [item]))"
      by (simp add: out_eq firstSeen_snoc)
    have B: "\<exists>r rs. rowsOf (FormattedType.registerNo (out ! i)) (data @ [item]) = r # rs \<and>
        out ! i = foldl setGrade (newStudent r) rs" if i: "i < length out" for i
    proof (cases "i < length fd")
      case True
      then have "FormattedType.registerNo (fd ! i) \<in> set (map ResultType.registerNo data)"
        using setregs by (metis length_map nth_map nth_mem)
      with False have "FormattedType.registerNo (fd ! i) \<noteq> ?v" by auto
      with grp [OF True] True show ?thesis
        by (auto simp: out_eq nth_append rowsOf_snoc)
    next
      case False
      with i have "i = length fd" by (simp add: out_eq)
      then have "out ! i = newStudent item" by (simp add: out_eq)
      moreover have "rowsOf ?v (data @ [item]) = [item]"
        using \<open>?v \<notin> set (map ResultType.registerNo data)\<close>
        by (simp add: rowsOf_snoc rowsOf_empty)
      ultimately show ?thesis by simp
    qed
    from A B show ?thesis by blast
  qed
qed

lemma update_absent: "k \<notin> set (map fst al) \<Longrightarrow> AList.update k v al = al @ [(k, v)]"
  by (induction al) auto

lemma props_objSet:
  "k \<noteq> ''__proto__'' \<Longrightarrow> props (objSet obj k v) = AList.update k v (props obj)"
  by (simp add: objSet_def update_absent)


lemma getOwn_objSet_other: "k' \<noteq> k \<Longrightarrow> getOwn (objSet obj k v) k' = getOwn obj k'"
  by (auto simp: getOwn_def objSet_def update_conv' map_add_def split: option.splits)

subsection \<open>The grades object\<close>

lemma strictEq_JStr [simp]: "strictEq a (JStr s) = (a = JStr s)"
  by (auto simp: strictEq_def)

lemma firstGrade_typed:
  "grade item = JNull \<or> toBoolean (grade item) \<Longrightarrow>
   firstGrade item =
     (if grade item \<noteq> JNull then grade item
      else if attendance item = JStr ''Absent'' then JStr ''Absent''
      else if ResultType.withheld item = JStr ''With held for Malpractice'' then JStr ''F''
      else if ResultType.withheld item = JStr ''Withheld'' then JStr ''Withheld''
      else JNull)"
  by (auto simp: firstGrade_def)

lemma isGradeOrNull_truthy: "isGradeOrNull v \<Longrightarrow> v = JNull \<or> toBoolean v"
  by (auto simp: isGradeOrNull_def isGrade_def)

lemma formatItem_registerNos_eq:
  assumes "formatItem fd item = Inr out"
  shows "set (map FormattedType.registerNo out) =
     insert (ResultType.registerNo item) (set (map FormattedType.registerNo fd))"
proof -
  let ?p = "\<lambda>s. strictEq (FormattedType.registerNo s) (ResultType.registerNo item)"
  show ?thesis
  proof (cases "findIndex ?p fd = - 1")
    case True
    with assms show ?thesis by (auto simp: formatItem_def)
  next
    case False
    from findIndex_found [OF False] obtain i where i: "i < length fd" "findIndex ?p fd = int i"
      "?p (fd ! i)" by blast
    with assms have "out = fd[i := setGrade (fd ! i) item]"
      by (simp add: formatItem_def)
    then have "map FormattedType.registerNo out = map FormattedType.registerNo fd"
      using i by (simp add: map_update list_update_same_conv)
    moreover have "ResultType.registerNo item \<in> set (map FormattedType.registerNo fd)"
      using i by (metis strictEq_def length_map nth_map nth_mem)
    ultimately show ?thesis by auto
  qed
qed

lemma formatData_registerNos_eq:
  "formatData data = Inr out \<Longrightarrow>
   set (map FormattedType.registerNo out) = set (map ResultType.registerNo data)"
proof (induction data arbitrary: out rule: rev_induct)
  case Nil
  then show ?case by (simp add: formatData_def)
next
  case (snoc item data)
  obtain fd where fd: "formatData data = Inr fd"
    using formatData_returns by blast
  with snoc.prems have "formatItem fd item = Inr out"
    by (simp add: formatData_snoc)
  from formatItem_registerNos_eq [OF this] snoc.IH [OF fd] show ?case by auto
qed

lemma formatData_seen:
  assumes "r \<in> set pre" "strictEq (ResultType.registerNo r) (ResultType.registerNo item)"
    and "formatData pre = Inr fd"
  shows "\<exists>i<length fd. FormattedType.registerNo (fd ! i) = ResultType.registerNo item \<and>
           formatItem fd item = Inr (fd[i := setGrade (fd ! i) item])"
proof -
  let ?p = "\<lambda>s. strictEq (FormattedType.registerNo s) (ResultType.registerNo item)"
  from assms(3) have "set (map FormattedType.registerNo fd) = set (map ResultType.registerNo pre)"
    by (rule formatData_registerNos_eq)
  with assms(1) have "ResultType.registerNo r \<in> set (map FormattedType.registerNo fd)"
    by simp
  then obtain s where "s \<in> set fd" "FormattedType.registerNo s = ResultType.registerNo r"
    by auto
  with assms(2) have "\<not> (\<forall>s\<in>set fd. \<not> ?p s)" by metis
  then have "findIndex ?p fd \<noteq> - 1" by (simp add: findIndex_none)
  from findIndex_found [OF this] obtain i where
    i: "i < length fd" "findIndex ?p fd = int i" "?p (fd ! i)" by blast
  then have "formatItem fd item = Inr (fd[i := setGrade (fd ! i) item])"
    by (simp add: formatItem_def)
  with i show ?thesis by (auto simp: strictEq_def)
qed


lemma keys_setGrade:
  "courseKey item \<noteq> ''__proto__'' \<Longrightarrow>
   map fst (props (grades (setGrade s item))) =
     (if courseKey item \<in> set (map fst (props (grades s))) then map fst (props (grades s))
      else map fst (props (grades s)) @ [courseKey item])"
  by (simp add: setGrade_def courseKey_def props_objSet update_keys)

lemma keys_foldl_setGrade:
  "''__proto__'' \<notin> set (map courseKey rs) \<Longrightarrow>
   map fst (props (grades (foldl setGrade (newStudent r) rs))) =
     firstSeen (map courseKey (r # rs))"
proof (induction rs rule: rev_induct)
  case Nil
  show ?case by (simp add: newStudent_def objNew_def courseKey_def)
next
  case (snoc x rs)
  from snoc.prems have k: "courseKey x \<noteq> ''__proto__''" and
    rs: "''__proto__'' \<notin> set (map courseKey rs)" by auto
  let ?s = "foldl setGrade (newStudent r) rs"
  have ih: "map fst (props (grades ?s)) = firstSeen (map courseKey (r # rs))"
    using snoc.IH [OF rs] .
  have mem: "(courseKey x \<in> set (map fst (props (grades ?s)))) =
      (courseKey x \<in> set (map courseKey (r # rs)))"
    unfolding ih by (simp only: set_firstSeen)
  have "map courseKey (r # rs @ [x]) = map courseKey (r # rs) @ [courseKey x]"
    by simp
  then have "firstSeen (map courseKey (r # rs @ [x])) =
      (if courseKey x \<in> set (map courseKey (r # rs)) then firstSeen (map courseKey (r # rs))
       else firstSeen (map courseKey (r # rs)) @ [courseKey x])"
    by (simp only: firstSeen_snoc)
  moreover have "foldl setGrade (newStudent r) (rs @ [x]) = setGrade ?s x"
    by simp
  ultimately show ?case
    using keys_setGrade [OF k, of ?s] ih mem by presburger
qed

lemma set_ownKeys: "set (ownKeys ks) = set ks"
  by (auto simp: ownKeys_def)

lemma distinct_ownKeys: "distinct ks \<Longrightarrow> distinct (ownKeys ks)"
  by (auto simp: ownKeys_def)

lemma ownKeys_plain: "list_all (\<lambda>k. \<not> isArrayIndex k) ks \<Longrightarrow> ownKeys ks = ks"
  by (simp add: ownKeys_def list_all_iff filter_empty_conv filter_id_conv)

lemma rowsOf_subset: "set (rowsOf v data) \<subseteq> set data"
  by (auto simp: rowsOf_def)

subsection \<open>The loop body by recursion over the students\<close>

lemma formatItem_Nil: "formatItem [] item = Inr [newStudent item]"
  by (simp add: formatItem_def)

lemma formatItem_Cons:
  "formatItem (s # fd) item =
     (if strictEq (FormattedType.registerNo s) (ResultType.registerNo item)
      then Inr (setGrade s item # fd)
      else (case formatItem fd item of Inl e \<Rightarrow> Inl e | Inr out \<Rightarrow> Inr (s # out)))"
proof -
  let ?p = "\<lambda>i. strictEq (FormattedType.registerNo i) (ResultType.registerNo item)"
  have r: "findIndex ?p fd = - 1 \<or> (0 \<le> findIndex ?p fd \<and> nat (findIndex ?p fd) < length fd)"
    using findIndex_range [of ?p fd] by auto
  show ?thesis
  proof (cases "?p s")
    case True
    then show ?thesis by (simp add: formatItem_def)
  next
    case False
    from r show ?thesis
    proof
      assume "findIndex ?p fd = - 1"
      with False show ?thesis by (simp add: formatItem_def)
    next
      assume a: "0 \<le> findIndex ?p fd \<and> nat (findIndex ?p fd) < length fd"
      then have "nat (findIndex ?p fd + 1) = Suc (nat (findIndex ?p fd))" by linarith
      with a False show ?thesis by (simp add: formatItem_def Let_def)
    qed
  qed
qed

lemmas eval_formatData =
  formatData_def formatItem_Nil formatItem_Cons newStudent_def setGrade_def firstGrade_def
  objNew_def objSet_def strictEq_def mkRow_def mkStudent_def getOwn_def courseKey_def

lemma formatData_keys:
  assumes "JNaN \<notin> set (map ResultType.registerNo data)"
    and "''__proto__'' \<notin> set (map courseKey data)"
    and "formatData data = Inr out" and "s \<in> set out"
  shows "map fst (props (grades s)) =
     firstSeen (map courseKey (rowsOf (FormattedType.registerNo s) data))"
proof -
  from assms(4) obtain i where i: "i < length out" "out ! i = s"
    by (auto simp: in_set_conv_nth)
  have "\<forall>i<length out. \<exists>r rs.
      rowsOf (FormattedType.registerNo (out ! i)) data = r # rs \<and>
      out ! i = foldl setGrade (newStudent r) rs"
    using formatData_groups [OF assms(1,3)] by (rule conjunct2)
  from this [rule_format, OF i(1)] obtain r rs where
    r: "rowsOf (FormattedType.registerNo s) data = r # rs"
       "s = foldl setGrade (newStudent r) rs"
    unfolding i(2) by (elim exE conjE)
  have "set (r # rs) \<subseteq> set data"
    using rowsOf_subset [of "FormattedType.registerNo s" data] r(1) by simp
  with assms(2) have np: "''__proto__'' \<notin> set (map courseKey rs)" by auto
  show ?thesis
    unfolding r(1) by (subst r(2)) (rule keys_foldl_setGrade [OF np])
qed

lemmas eval_keys = ownKeys_def isArrayIndex_def digitsValue_def showNat.simps digitChar_def

lemma ownKeys_two_codes:
  "ownKeys [''2001-English'', ''2002-Maths''] = [''2001-English'', ''2002-Maths'']"
  by (simp add: eval_keys)

lemma ownKeys_one_code: "ownKeys [''2001-English''] = [''2001-English'']"
  by (simp add: eval_keys)

lemma ownKeys_index_first:
  "ownKeys [''2001-English'', ''1002''] = [''1002'', ''2001-English'']"
  by (simp add: eval_keys)

lemmas sampleRows_keys = ownKeys_two_codes ownKeys_one_code ownKeys_index_first

subsection \<open>getAllCourses\<close>

lemma foldl_pushCourse: "foldl pushCourse (firstSeen ys) ks = firstSeen (ys @ ks)"
proof (induction ks rule: rev_induct)
  case Nil
  show ?case by simp
next
  case (snoc k ks)
  have "foldl pushCourse (firstSeen ys) (ks @ [k]) = pushCourse (firstSeen (ys @ ks)) k"
    by (simp add: snoc.IH)
  also have "\<dots> = firstSeen ((ys @ ks) @ [k])"
    unfolding firstSeen_snoc pushCourse_def by (simp only: set_firstSeen)
  finally show ?case by simp
qed

lemma getAllCourses_from:
  "foldl (\<lambda>courses item. foldl pushCourse courses (objectKeys (grades item))) (firstSeen ys) data =
     firstSeen (ys @ concat (map (\<lambda>item. objectKeys (grades item)) data))"
proof (induction data arbitrary: ys)
  case Nil
  show ?case by simp
next
  case (Cons item data)
  show ?case
    using Cons.IH [of "ys @ objectKeys (grades item)"] by (simp add: foldl_pushCourse)
qed

subsection \<open>Lines\<close>

lemma CR_neq_LF: "CR \<noteq> LF"
  by (simp add: CR_def LF_def)

lemma length_consHead: "ls \<noteq> [] \<Longrightarrow> length (consHead c ls) = length ls"
  by (cases ls) auto

lemma consHead_nonempty: "consHead c ls \<noteq> []"
  by (cases ls) auto

lemma splitLines_nonempty: "splitLines s \<noteq> []"
  by (induction s rule: splitLines.induct) (auto simp: consHead_nonempty)

lemma length_splitLines: "length (splitLines s) = Suc (count_list s LF)"
proof (induction s rule: splitLines.induct)
  case 1
  show ?case by simp
next
  case (2 c)
  show ?case by simp
next
  case (3 c d cs)
  show ?case
  proof (cases "c = CR \<and> d = LF")
    case True
    with 3 show ?thesis using CR_neq_LF by simp
  next
    case False
    show ?thesis
    proof (cases "c = LF")
      case True
      with False 3 show ?thesis by simp
    next
      case nl: False
      with False 3 have "length (splitLines (d # cs)) = Suc (count_list (d # cs) LF)"
        by simp
      then have "length (consHead c (splitLines (d # cs))) = Suc (count_list (c # d # cs) LF)"
        using nl by (simp add: length_consHead splitLines_nonempty)
      moreover have "splitLines (c # d # cs) = consHead c (splitLines (d # cs))"
        using False nl by auto
      ultimately show ?thesis by (simp only:)
    qed
  qed
qed

lemma count_list_0: "(count_list xs x = 0) = (x \<notin> set xs)"
  by (induction xs) auto

lemma few_lines: "(length (splitLines s) < 2) = (LF \<notin> set s)"
  using count_list_0 [of s LF] by (simp add: length_splitLines less_Suc_eq)

lemma replaceAllSemicolons_idem:
  "replaceAllSemicolons (replaceAllSemicolons h) = replaceAllSemicolons h"
  by (simp add: replaceAllSemicolons_def)

lemma no_semicolon: "CHR '';'' \<notin> set (replaceAllSemicolons h)"
  by (auto simp: replaceAllSemicolons_def)

lemma parseCsv_text:
  "parseCsv papa (LoadText file) =
     (if length (splitLines file) < 2 then OnError ''File is empty''
      else OnSuccess (papa (joinLF
        (replaceAllSemicolons (hd (splitLines file)) # tl (splitLines file)))))"
proof (cases "splitLines file")
  case Nil
  then show ?thesis by (simp add: parseCsv_def)
next
  case (Cons l ls)
  then show ?thesis by (simp add: parseCsv_def Let_def)
qed

subsection \<open>What a later row leaves alone\<close>

lemma update_filter_other:
  "filter (\<lambda>p. fst p \<noteq> k) (AList.update k v al) = filter (\<lambda>p. fst p \<noteq> k) al"
  by (induction al) auto

lemma props_objSet_other:
  "filter (\<lambda>p. fst p \<noteq> k) (props (objSet obj k v)) = filter (\<lambda>p. fst p \<noteq> k) (props obj)"
  by (simp add: objSet_def update_filter_other)

lemma studentMeta_setGrade: "studentMeta (setGrade s item) = studentMeta s"
  by (simp add: studentMeta_def setGrade_def)

lemma studentMeta_newStudent: "studentMeta (newStudent r) = rowMeta r"
  by (simp add: studentMeta_def rowMeta_def newStudent_def)

lemma studentMeta_foldl: "studentMeta (foldl setGrade s rs) = studentMeta s"
  by (induction rs arbitrary: s) (simp_all add: studentMeta_setGrade)

subsection \<open>The slot of a row\<close>










section \<open>Claims\<close>


text \<open>
  C1. For every list of rows whose register numbers are not NaN (an integer identifier
  is not), formatData returns exactly one student per distinct registerNo of the input:
  the register numbers of the output are those of the input, each once, in the order of
  their first occurrence.
\<close>

theorem formatData_one_per_registerNo:
  assumes "JNaN \<notin> set (map ResultType.registerNo data)"
  shows "\<exists>out. formatData data = Inr out \<and>
           map FormattedType.registerNo out = firstSeen (map ResultType.registerNo data) \<and>
           distinct (map FormattedType.registerNo out) \<and>
           set (map FormattedType.registerNo out) = set (map ResultType.registerNo data) \<and>
           length out = card (set (map ResultType.registerNo data))"
proof -
  obtain out where out: "formatData data = Inr out"
    using formatData_returns by blast
  from formatData_groups [OF assms out]
  have regs: "map FormattedType.registerNo out = firstSeen (map ResultType.registerNo data)"
    by blast
  have "length out = length (firstSeen (map ResultType.registerNo data))"
    by (metis regs length_map)
  also have "\<dots> = card (set (firstSeen (map ResultType.registerNo data)))"
    by (metis distinct_card distinct_firstSeen)
  finally have len: "length out = card (set (map ResultType.registerNo data))"
    by (simp only: set_firstSeen)
  have st: "set (map FormattedType.registerNo out) = set (map ResultType.registerNo data)"
    using regs set_firstSeen by metis
  have di: "distinct (map FormattedType.registerNo out)"
    using regs distinct_firstSeen by metis
  from out regs di st len show ?thesis by blast
qed

theorem formatData_one_per_registerNo_witness:
  "JNaN \<notin> set (map ResultType.registerNo sampleRows) \<and>
   (\<exists>out. formatData sampleRows = Inr out \<and>
      map FormattedType.registerNo out = [JNum 7, JNum 3] \<and> length out = 2)"
proof -
  have h: "JNaN \<notin> set (map ResultType.registerNo sampleRows)"
    by (simp add: sampleRows_def mkRow_def)
  have f: "firstSeen (map ResultType.registerNo sampleRows) = [JNum 7, JNum 3]"
    by (simp add: sampleRows_def mkRow_def)
  from formatData_one_per_registerNo [OF h] obtain out where
    "formatData sampleRows = Inr out"
    "map FormattedType.registerNo out = firstSeen (map ResultType.registerNo sampleRows)"
    by blast
  with h f show ?thesis by (metis length_map length_Cons list.size(3) numeral_2_eq_2)
qed

text \<open>
  C2. The first row formatData meets for a register number seeds the student's only
  course so far by the precedence chain: the grade when it is not null, else Absent
  when attendance is Absent, else F when withheld is "With held for Malpractice", else
  Withheld when withheld is "Withheld", else null. The grade is taken as its declared
  type \<^verbatim>\<open>Grade | null\<close> has it: null or a truthy value (every member of the enum is a
  non-empty string).
\<close>

theorem first_row_seeds_by_precedence:
  assumes "\<forall>r\<in>set pre. \<not> strictEq (ResultType.registerNo r) (ResultType.registerNo item)"
    and "grade item = JNull \<or> toBoolean (grade item)"
  shows "\<exists>fd s. formatData pre = Inr fd \<and> formatData (pre @ [item]) = Inr (fd @ [s]) \<and>
           props (grades s) =
             [(toPropertyKey (course item),
               if grade item \<noteq> JNull then grade item
               else if attendance item = JStr ''Absent'' then JStr ''Absent''
               else if ResultType.withheld item = JStr ''With held for Malpractice''
                 then JStr ''F''
               else if ResultType.withheld item = JStr ''Withheld'' then JStr ''Withheld''
               else JNull)]"
proof -
  obtain fd where fd: "formatData pre = Inr fd"
    using formatData_returns by blast
  have "set (map FormattedType.registerNo fd) = set (map ResultType.registerNo pre)"
    using fd by (rule formatData_registerNos_eq)
  with assms(1) have "\<forall>s\<in>set fd.
      \<not> strictEq (FormattedType.registerNo s) (ResultType.registerNo item)"
    by (metis (no_types, lifting) image_iff list.set_map)
  then have "formatItem fd item = Inr (fd @ [newStudent item])"
    by (rule formatItem_new)
  with fd have "formatData (pre @ [item]) = Inr (fd @ [newStudent item])"
    by (simp add: formatData_snoc)
  moreover have "props (grades (newStudent item)) =
      [(toPropertyKey (course item), firstGrade item)]"
    by (simp add: newStudent_def objNew_def)
  ultimately show ?thesis
    using fd firstGrade_typed [OF assms(2)] by auto
qed

theorem first_row_seeds_by_precedence_witness:
  "\<exists>fd s. formatData [mkRow (JNum 3) ''Binu'' (JStr ''2001-English'') ''Present'' JNull (JStr ''A'')] = Inr fd \<and>
     formatData [mkRow (JNum 3) ''Binu'' (JStr ''2001-English'') ''Present'' JNull (JStr ''A''),
                 mkRow (JNum 7) ''Asha'' (JStr ''2002-Maths'') ''Present''
                   (JStr ''With held for Malpractice'') JNull] = Inr (fd @ [s]) \<and>
     props (grades s) = [(''2002-Maths'', JStr ''F'')]"
  using first_row_seeds_by_precedence
    [of "[mkRow (JNum 3) ''Binu'' (JStr ''2001-English'') ''Present'' JNull (JStr ''A'')]"
        "mkRow (JNum 7) ''Asha'' (JStr ''2002-Maths'') ''Present''
           (JStr ''With held for Malpractice'') JNull"]
  by (simp add: mkRow_def strictEq_def)




text \<open>
  C4. As stated the claim fails twice over on one student with the course keys
  2001-English, 1002 and \<^verbatim>\<open>__proto__\<close>: the array index 1002 is enumerated before the
  key seen first, and \<^verbatim>\<open>__proto__\<close> on a later row is dropped.
\<close>

theorem grades_keys_not_first_seen:
  "formatData oddKeyRows =
     Inr [mkStudent (JNum 1) ''Asha'' [(''2001-English'', JStr ''A''), (''1002'', JStr ''B'')]
            False JNull] \<and>
   objectKeys (grades (mkStudent (JNum 1) ''Asha''
       [(''2001-English'', JStr ''A''), (''1002'', JStr ''B'')] False JNull)) =
     [''1002'', ''2001-English''] \<and>
   firstSeen (map courseKey (rowsOf (JNum 1) oddKeyRows)) =
     [''2001-English'', ''1002'', ''__proto__'']"
proof -
  have "formatData oddKeyRows =
     Inr [mkStudent (JNum 1) ''Asha'' [(''2001-English'', JStr ''A''), (''1002'', JStr ''B'')]
            False JNull]"
    by (simp add: oddKeyRows_def eval_formatData)
  moreover have "objectKeys (grades (mkStudent (JNum 1) ''Asha''
       [(''2001-English'', JStr ''A''), (''1002'', JStr ''B'')] False JNull)) =
     [''1002'', ''2001-English'']"
    by (simp add: objectKeys_def mkStudent_def sampleRows_keys)
  moreover have "firstSeen (map courseKey (rowsOf (JNum 1) oddKeyRows)) =
     [''2001-English'', ''1002'', ''__proto__'']"
    by (simp add: oddKeyRows_def rowsOf_def mkRow_def courseKey_def)
  ultimately show ?thesis by simp
qed

text \<open>
  C4, amended. For every input whose register numbers are not NaN and whose course keys
  differ from \<^verbatim>\<open>__proto__\<close>, and every student of the output: the keys of the
  student's grades are the distinct course keys of the input rows with that registerNo,
  none dropped and none added; Object.keys lists those that are array indices first, in
  ascending numeric order, and then the others in first-seen order, which is plain
  first-seen order when no course key of the student is an array index.
\<close>

theorem grades_keys_of_student:
  assumes "JNaN \<notin> set (map ResultType.registerNo data)"
    and "''__proto__'' \<notin> set (map courseKey data)"
  shows "\<exists>out. formatData data = Inr out \<and>
    (\<forall>s\<in>set out.
       objectKeys (grades s) =
         ownKeys (firstSeen (map courseKey (rowsOf (FormattedType.registerNo s) data))) \<and>
       set (objectKeys (grades s)) =
         set (map courseKey (rowsOf (FormattedType.registerNo s) data)) \<and>
       distinct (objectKeys (grades s)) \<and>
       (list_all (\<lambda>k. \<not> isArrayIndex k)
            (map courseKey (rowsOf (FormattedType.registerNo s) data)) \<longrightarrow>
          objectKeys (grades s) =
            firstSeen (map courseKey (rowsOf (FormattedType.registerNo s) data))))"
proof -
  obtain out where out: "formatData data = Inr out"
    using formatData_returns by blast
  have "objectKeys (grades s) =
         ownKeys (firstSeen (map courseKey (rowsOf (FormattedType.registerNo s) data))) \<and>
       set (objectKeys (grades s)) =
         set (map courseKey (rowsOf (FormattedType.registerNo s) data)) \<and>
       distinct (objectKeys (grades s)) \<and>
       (list_all (\<lambda>k. \<not> isArrayIndex k)
            (map courseKey (rowsOf (FormattedType.registerNo s) data)) \<longrightarrow>
          objectKeys (grades s) =
            firstSeen (map courseKey (rowsOf (FormattedType.registerNo s) data)))"
    if s: "s \<in> set out" for s
  proof -
    let ?cs = "map courseKey (rowsOf (FormattedType.registerNo s) data)"
    have keys: "map fst (props (grades s)) = firstSeen ?cs"
      using assms out s by (rule formatData_keys)
    then have a: "objectKeys (grades s) = ownKeys (firstSeen ?cs)"
      by (simp add: objectKeys_def)
    have b: "set (objectKeys (grades s)) = set ?cs"
      unfolding a set_ownKeys by (rule set_firstSeen)
    have c: "distinct (objectKeys (grades s))"
      unfolding a by (rule distinct_ownKeys) (rule distinct_firstSeen)
    have d: "objectKeys (grades s) = firstSeen ?cs" if "list_all (\<lambda>k. \<not> isArrayIndex k) ?cs"
    proof -
      from that have "list_all (\<lambda>k. \<not> isArrayIndex k) (firstSeen ?cs)"
        unfolding list_all_iff by (simp only: set_firstSeen)
      then show ?thesis unfolding a by (rule ownKeys_plain)
    qed
    show ?thesis
      by (intro conjI impI) (rule a b c, rule a b c, rule a b c, erule d)
  qed
  then have "\<forall>s\<in>set out.
       objectKeys (grades s) =
         ownKeys (firstSeen (map courseKey (rowsOf (FormattedType.registerNo s) data))) \<and>
       set (objectKeys (grades s)) =
         set (map courseKey (rowsOf (FormattedType.registerNo s) data)) \<and>
       distinct (objectKeys (grades s)) \<and>
       (list_all (\<lambda>k. \<not> isArrayIndex k)
            (map courseKey (rowsOf (FormattedType.registerNo s) data)) \<longrightarrow>
          objectKeys (grades s) =
            firstSeen (map courseKey (rowsOf (FormattedType.registerNo s) data)))"
    by (rule ballI)
  with out show ?thesis by (intro exI [of _ out] conjI)
qed

theorem grades_keys_of_student_witness:
  "JNaN \<notin> set (map ResultType.registerNo sampleRows) \<and>
   ''__proto__'' \<notin> set (map courseKey sampleRows) \<and>
   (\<exists>out. formatData sampleRows = Inr out \<and>
      map FormattedType.registerNo out = [JNum 7, JNum 3] \<and>
      map (\<lambda>s. objectKeys (grades s)) out =
        [[''2001-English'', ''2002-Maths''], [''2001-English'']])"
proof -
  have h1: "JNaN \<notin> set (map ResultType.registerNo sampleRows)"
    by (simp add: sampleRows_def mkRow_def)
  have h2: "''__proto__'' \<notin> set (map courseKey sampleRows)"
    by (simp add: sampleRows_def mkRow_def courseKey_def)
  from grades_keys_of_student [OF h1 h2] obtain out where
    out: "formatData sampleRows = Inr out" and
    all: "\<forall>s\<in>set out. objectKeys (grades s) =
      ownKeys (firstSeen (map courseKey (rowsOf (FormattedType.registerNo s) sampleRows))) \<and>
       set (objectKeys (grades s)) =
         set (map courseKey (rowsOf (FormattedType.registerNo s) sampleRows)) \<and>
       distinct (objectKeys (grades s)) \<and>
       (list_all (\<lambda>k. \<not> isArrayIndex k)
            (map courseKey (rowsOf (FormattedType.registerNo s) sampleRows)) \<longrightarrow>
          objectKeys (grades s) =
            firstSeen (map courseKey (rowsOf (FormattedType.registerNo s) sampleRows)))"
    by (elim exE conjE)
  have keys: "objectKeys (grades s) =
      ownKeys (firstSeen (map courseKey (rowsOf (FormattedType.registerNo s) sampleRows)))"
    if "s \<in> set out" for s
    using bspec [OF all that] by (elim conjE)
  have "formatData sampleRows =
      Inr [mkStudent (JNum 7) ''Asha''
             [(''2001-English'', JStr ''A''), (''2002-Maths'', JStr ''F'')] False JNull,
           mkStudent (JNum 3) ''Binu'' [(''2001-English'', JStr ''Absent'')] False JNull]"
    by (simp add: sampleRows_def eval_formatData)
  with out have o: "out =
      [mkStudent (JNum 7) ''Asha''
             [(''2001-English'', JStr ''A''), (''2002-Maths'', JStr ''F'')] False JNull,
       mkStudent (JNum 3) ''Binu'' [(''2001-English'', JStr ''Absent'')] False JNull]"
    by simp
  have r: "map FormattedType.registerNo out = [JNum 7, JNum 3]"
    by (simp add: o mkStudent_def)
  have "objectKeys (grades (out ! 0)) = [''2001-English'', ''2002-Maths'']"
    using keys [of "out ! 0"]
    by (simp add: o mkStudent_def sampleRows_def rowsOf_def mkRow_def courseKey_def
        sampleRows_keys)
  moreover have "objectKeys (grades (out ! 1)) = [''2001-English'']"
    using keys [of "out ! 1"]
    by (simp add: o mkStudent_def sampleRows_def rowsOf_def mkRow_def courseKey_def
        sampleRows_keys)
  ultimately have m: "map (\<lambda>s. objectKeys (grades s)) out =
        [[''2001-English'', ''2002-Maths''], [''2001-English'']]"
    by (simp add: o)
  show ?thesis
    by (intro conjI exI [of _ out]) (rule h1 h2 out r m)+
qed

text \<open>
  C5. getAllCourses returns the distinct course keys of all students, each once, in the
  order in which a scan meets them first: the students in sequence, the keys of each in
  the order Object.keys gives them. Student A with courses X, Y followed by student B
  with courses Y, Z yields X, Y, Z.
\<close>

theorem getAllCourses_first_seen:
  "getAllCourses data = firstSeen (concat (map (\<lambda>item. objectKeys (grades item)) data)) \<and>
   distinct (getAllCourses data) \<and>
   set (getAllCourses data) = set (concat (map (\<lambda>item. objectKeys (grades item)) data))"
proof -
  have "getAllCourses data =
      firstSeen ([] @ concat (map (\<lambda>item. objectKeys (grades item)) data))"
    unfolding getAllCourses_def using getAllCourses_from [of "[]" data] by simp
  then have e: "getAllCourses data =
      firstSeen (concat (map (\<lambda>item. objectKeys (grades item)) data))"
    by simp
  show ?thesis
    unfolding e by (intro conjI refl distinct_firstSeen set_firstSeen)
qed

theorem getAllCourses_first_seen_witness:
  "getAllCourses
     [mkStudent (JNum 1) ''A'' [(''X'', JStr ''A''), (''Y'', JStr ''B'')] False JNull,
      mkStudent (JNum 2) ''B'' [(''Y'', JStr ''C''), (''Z'', JStr ''S'')] False JNull] =
     [''X'', ''Y'', ''Z'']"
proof -
  have "ownKeys [''X'', ''Y''] = [''X'', ''Y'']" "ownKeys [''Y'', ''Z''] = [''Y'', ''Z'']"
    by (simp_all add: eval_keys)
  then show ?thesis
    using getAllCourses_first_seen
      [of "[mkStudent (JNum 1) ''A'' [(''X'', JStr ''A''), (''Y'', JStr ''B'')] False JNull,
            mkStudent (JNum 2) ''B'' [(''Y'', JStr ''C''), (''Z'', JStr ''S'')] False JNull]"]
    by (simp add: mkStudent_def objectKeys_def)
qed

text \<open>
  C6. As stated the claim fails: the test counts all pieces of the split, empty ones
  too. A header followed by a line break has one non-empty line, yet no error is
  reported and the text goes to Papa.parse.
\<close>

theorem header_with_line_break_is_parsed:
  "length (nonEmptyLines (splitLines (''Register No,Course'' @ [LF]))) = 1 \<and>
   parseCsv papaNoRows (LoadText (''Register No,Course'' @ [LF])) = OnSuccess []"
  by (simp add: nonEmptyLines_def parseCsv_text papaNoRows_def LF_def CR_def)

text \<open>
  C6, amended. The parser reports "File is empty" through the error callback exactly
  when the input, split on CRLF or LF, has fewer than 2 pieces, empty ones counted:
  that is, when it holds no line feed at all. Then onSuccess is not called, so no
  records are produced.
\<close>

theorem empty_input_error_iff_no_line_break:
  "(parseCsv papa (LoadText file) = OnError ''File is empty'') = (length (splitLines file) < 2) \<and>
   (length (splitLines file) < 2) = (LF \<notin> set file) \<and>
   (\<forall>records. LF \<notin> set file \<longrightarrow> parseCsv papa (LoadText file) \<noteq> OnSuccess records)"
  by (simp add: parseCsv_text few_lines)

theorem empty_input_error_iff_no_line_break_witness:
  "LF \<notin> set ''Register No;Course'' \<and>
   parseCsv papaNoRows (LoadText ''Register No;Course'') = OnError ''File is empty''"
  using empty_input_error_iff_no_line_break [of papaNoRows "''Register No;Course''"]
  by (simp add: LF_def)

text \<open>
  C8. In a file of at least two lines the parser replaces every semicolon of the first
  line by a comma and hands the other lines to Papa.parse as they are, joined by line
  feeds. So a file whose lines are the same but for commas in place of the header's
  semicolons gives the same records.
\<close>

theorem semicolons_replaced_in_header_only:
  assumes "LF \<in> set file"
  shows "\<exists>header rows. splitLines file = header # rows \<and> rows \<noteq> [] \<and>
           CHR '';'' \<notin> set (replaceAllSemicolons header) \<and>
           parseCsv papa (LoadText file) =
             OnSuccess (papa (joinLF (replaceAllSemicolons header # rows))) \<and>
           (\<forall>file'. splitLines file' = replaceAllSemicolons header # rows \<longrightarrow>
              parseCsv papa (LoadText file') = parseCsv papa (LoadText file))"
proof -
  from assms have two: "\<not> length (splitLines file) < 2"
    by (simp add: few_lines)
  then obtain header rows where hr: "splitLines file = header # rows" "rows \<noteq> []"
    by (cases "splitLines file") auto
  have p: "parseCsv papa (LoadText file) =
      OnSuccess (papa (joinLF (replaceAllSemicolons header # rows)))"
    using two hr by (simp add: parseCsv_text)
  have "parseCsv papa (LoadText file') = parseCsv papa (LoadText file)"
    if "splitLines file' = replaceAllSemicolons header # rows" for file'
    using that hr(2) p by (simp add: parseCsv_text replaceAllSemicolons_idem)
  with hr p no_semicolon [of header] show ?thesis by auto
qed

theorem semicolons_replaced_in_header_only_witness:
  "\<forall>papa.
     parseCsv papa (LoadText (''Register No;Course'' @ [LF] @ ''7;x,2001'')) =
       OnSuccess (papa (''Register No,Course'' @ [LF] @ ''7;x,2001'')) \<and>
     parseCsv papa (LoadText (''Register No,Course'' @ [LF] @ ''7;x,2001'')) =
       parseCsv papa (LoadText (''Register No;Course'' @ [LF] @ ''7;x,2001''))"
proof
  fix papa
  have l: "LF \<in> set (''Register No;Course'' @ [LF] @ ''7;x,2001'')" by simp
  have s1: "splitLines (''Register No;Course'' @ [LF] @ ''7;x,2001'') =
      [''Register No;Course'', ''7;x,2001'']"
    by (simp add: LF_def CR_def)
  have s2: "splitLines (''Register No,Course'' @ [LF] @ ''7;x,2001'') =
      [''Register No,Course'', ''7;x,2001'']"
    by (simp add: LF_def CR_def)
  have r: "replaceAllSemicolons ''Register No;Course'' = ''Register No,Course''"
    by (simp add: replaceAllSemicolons_def)
  from semicolons_replaced_in_header_only [OF l, of papa] obtain header rows where
    h: "splitLines (''Register No;Course'' @ [LF] @ ''7;x,2001'') = header # rows"
       "parseCsv papa (LoadText (''Register No;Course'' @ [LF] @ ''7;x,2001'')) =
          OnSuccess (papa (joinLF (replaceAllSemicolons header # rows)))"
       "\<forall>file'. splitLines file' = replaceAllSemicolons header # rows \<longrightarrow>
          parseCsv papa (LoadText file') =
          parseCsv papa (LoadText (''Register No;Course'' @ [LF] @ ''7;x,2001''))"
    by (elim exE conjE)
  from h(1) s1 have hr: "header = ''Register No;Course''" "rows = [''7;x,2001'']"
    by simp_all
  have j: "joinLF [''Register No,Course'', ''7;x,2001''] =
      ''Register No,Course'' @ [LF] @ ''7;x,2001''"
    by simp
  have a: "parseCsv papa (LoadText (''Register No;Course'' @ [LF] @ ''7;x,2001'')) =
       OnSuccess (papa (''Register No,Course'' @ [LF] @ ''7;x,2001''))"
    using h(2) unfolding hr r j .
  have b: "parseCsv papa (LoadText (''Register No,Course'' @ [LF] @ ''7;x,2001'')) =
       parseCsv papa (LoadText (''Register No;Course'' @ [LF] @ ''7;x,2001''))"
    by (rule h(3) [unfolded hr r, rule_format, OF s2])
  from a b show "parseCsv papa (LoadText (''Register No;Course'' @ [LF] @ ''7;x,2001'')) =
       OnSuccess (papa (''Register No,Course'' @ [LF] @ ''7;x,2001'')) \<and>
     parseCsv papa (LoadText (''Register No,Course'' @ [LF] @ ''7;x,2001'')) =
       parseCsv papa (LoadText (''Register No;Course'' @ [LF] @ ''7;x,2001''))"
    by (rule conjI)
qed

text \<open>
  C7. When formatData processes a row whose registerNo is already in the output, the
  output keeps its length, every other student's record is unchanged, and the student
  hit keeps its six copied fields and all its properties other than the row's course
  key, in their order. (The prototype link of grades, which is not a property, is the
  only other thing the assignment can touch.) And every student of an output carries
  the registerNo, studentName, branch, semester, examType and withheld of the first
  input row with that registerNo. Register numbers are taken not to be NaN.
\<close>

theorem later_row_changes_one_entry:
  assumes "JNaN \<notin> set (map ResultType.registerNo (pre @ [item]))"
    and "ResultType.registerNo item \<in> set (map ResultType.registerNo pre)"
  shows "\<exists>fd out i. formatData pre = Inr fd \<and> formatData (pre @ [item]) = Inr out \<and>
     length out = length fd \<and> i < length fd \<and>
     FormattedType.registerNo (fd ! i) = ResultType.registerNo item \<and>
     (\<forall>j<length fd. j \<noteq> i \<longrightarrow> out ! j = fd ! j) \<and>
     studentMeta (out ! i) = studentMeta (fd ! i) \<and>
     filter (\<lambda>p. fst p \<noteq> courseKey item) (props (grades (out ! i))) =
       filter (\<lambda>p. fst p \<noteq> courseKey item) (props (grades (fd ! i))) \<and>
     (\<forall>s\<in>set out. \<exists>r rs.
        rowsOf (FormattedType.registerNo s) (pre @ [item]) = r # rs \<and>
        studentMeta s = rowMeta r)"
proof -
  obtain fd where fd: "formatData pre = Inr fd"
    using formatData_returns by blast
  from assms(2) obtain r where r: "r \<in> set pre"
    "ResultType.registerNo r = ResultType.registerNo item" by auto
  from assms(1) have "ResultType.registerNo item \<noteq> JNaN" by auto
  with r(2) have "strictEq (ResultType.registerNo r) (ResultType.registerNo item)"
    by (simp add: strictEq_def)
  from formatData_seen [OF r(1) this fd] obtain i where i: "i < length fd"
    "FormattedType.registerNo (fd ! i) = ResultType.registerNo item"
    "formatItem fd item = Inr (fd[i := setGrade (fd ! i) item])" by blast
  let ?out = "fd[i := setGrade (fd ! i) item]"
  have out: "formatData (pre @ [item]) = Inr ?out"
    using fd i(3) by (simp add: formatData_snoc)
  have oi: "?out ! i = setGrade (fd ! i) item"
    using i(1) by simp
  have a: "\<forall>j<length fd. j \<noteq> i \<longrightarrow> ?out ! j = fd ! j"
    by simp
  have b: "studentMeta (?out ! i) = studentMeta (fd ! i)"
    unfolding oi by (rule studentMeta_setGrade)
  have c: "filter (\<lambda>p. fst p \<noteq> courseKey item) (props (grades (?out ! i))) =
       filter (\<lambda>p. fst p \<noteq> courseKey item) (props (grades (fd ! i)))"
    unfolding oi by (simp add: setGrade_def courseKey_def props_objSet_other)
  have d: "\<exists>r rs. rowsOf (FormattedType.registerNo s) (pre @ [item]) = r # rs \<and>
        studentMeta s = rowMeta r" if "s \<in> set ?out" for s
  proof -
    from that obtain k where k: "k < length ?out" "?out ! k = s"
      by (auto simp: in_set_conv_nth)
    have "\<forall>k<length ?out. \<exists>r rs.
        rowsOf (FormattedType.registerNo (?out ! k)) (pre @ [item]) = r # rs \<and>
        ?out ! k = foldl setGrade (newStudent r) rs"
      using formatData_groups [OF assms(1) out] by (rule conjunct2)
    from this [rule_format, OF k(1)] obtain r rs where
      "rowsOf (FormattedType.registerNo s) (pre @ [item]) = r # rs"
      "s = foldl setGrade (newStudent r) rs"
      unfolding k(2) by (elim exE conjE)
    moreover from this(2) have "studentMeta s = rowMeta r"
      by (simp add: studentMeta_foldl studentMeta_newStudent)
    ultimately show ?thesis by (intro exI conjI)
  qed
  then have d': "\<forall>s\<in>set ?out. \<exists>r rs.
        rowsOf (FormattedType.registerNo s) (pre @ [item]) = r # rs \<and>
        studentMeta s = rowMeta r"
    by (rule ballI)
  have len: "length ?out = length fd" by simp
  show ?thesis
    by (intro exI [of _ fd] exI [of _ ?out] exI [of _ i] conjI)
      (rule fd out len i(1) i(2) a b c d')+
qed

theorem later_row_changes_one_entry_witness:
  "\<exists>fd out.
     formatData [mkRow (JNum 7) ''Asha'' (JStr ''2001-English'') ''Present'' JNull (JStr ''A'')] =
       Inr fd \<and>
     formatData [mkRow (JNum 7) ''Asha'' (JStr ''2001-English'') ''Present'' JNull (JStr ''A''),
                 mkRow (JNum 7) ''Other'' (JStr ''2002-Maths'') ''Absent'' (JStr ''Withheld'') JNull] =
       Inr out \<and>
     length out = 1 \<and> length fd = 1 \<and>
     studentMeta (out ! 0) = studentMeta (fd ! 0) \<and>
     filter (\<lambda>p. fst p \<noteq> ''2002-Maths'') (props (grades (out ! 0))) =
       filter (\<lambda>p. fst p \<noteq> ''2002-Maths'') (props (grades (fd ! 0)))"
proof -
  let ?r1 = "mkRow (JNum 7) ''Asha'' (JStr ''2001-English'') ''Present'' JNull (JStr ''A'')"
  let ?r2 = "mkRow (JNum 7) ''Other'' (JStr ''2002-Maths'') ''Absent'' (JStr ''Withheld'') JNull"
  have h1: "JNaN \<notin> set (map ResultType.registerNo ([?r1] @ [?r2]))"
    by (simp add: mkRow_def)
  have h2: "ResultType.registerNo ?r2 \<in> set (map ResultType.registerNo [?r1])"
    by (simp add: mkRow_def)
  have e: "formatData [?r1] = Inr [newStudent ?r1]"
    by (simp add: formatData_def formatItem_Nil)
  from later_row_changes_one_entry [OF h1 h2] obtain fd out i where
    f: "formatData [?r1] = Inr fd" "formatData ([?r1] @ [?r2]) = Inr out"
       "length out = length fd" "i < length fd"
       "studentMeta (out ! i) = studentMeta (fd ! i)"
       "filter (\<lambda>p. fst p \<noteq> courseKey ?r2) (props (grades (out ! i))) =
          filter (\<lambda>p. fst p \<noteq> courseKey ?r2) (props (grades (fd ! i)))"
    by (elim exE conjE)
  from e f(1) have l: "length fd = 1" by auto
  with f(4) have i0: "i = 0" by simp
  have k: "courseKey ?r2 = ''2002-Maths''"
    by (simp add: courseKey_def mkRow_def)
  have o: "formatData [?r1, ?r2] = Inr out"
    using f(2) by simp
  have l': "length out = 1" using f(3) l by simp
  show ?thesis
    by (intro exI [of _ fd] exI [of _ out] conjI)
      (rule f(1) o l l' f(5) [unfolded i0] f(6) [unfolded i0 k])+
qed



end
